theory Spec2Isabelle
  imports Complex_Main "HOL-Library.Log_Nat"
begin

section \<open>Data model of FileToCloudProjectResourceUploader.js\<close>

text \<open>
  A browser \<^verbatim>\<open>File\<close>: only its \<^verbatim>\<open>name\<close> and its \<^verbatim>\<open>size\<close> (a
  non-negative number of bytes) are read by the component.
\<close>

record js_file =
  file_name :: string
  file_size :: nat

text \<open>A JavaScript \<^verbatim>\<open>Error\<close> object, identified by its message.\<close>

datatype js_error = JsError string

text \<open>
  One element of \<^verbatim>\<open>UploadedProjectResourceFiles\<close>. The type is declared in
  \<^verbatim>\<open>Utils/GDevelopServices/Project\<close>; the three fields are the ones the component
  destructures. A nullable field is an \<open>option\<close>.
\<close>

record uploaded_file =
  result_error :: "js_error option"
  resourceFile :: js_file
  result_url :: "string option"

text \<open>
  What a \<^verbatim>\<open>catch\<close> clause can receive here: an \<^verbatim>\<open>Error\<close> thrown by a callee, or the
  element \<^verbatim>\<open>erroredResults[0]\<close> that \<^verbatim>\<open>onUpload\<close> throws itself.
\<close>

datatype thrown = ThrownError js_error | ThrownResult uploaded_file

text \<open>
  A \<^verbatim>\<open>gdResource\<close>, as far as the three setters called by the component determine it.
\<close>

record resource =
  res_file :: string
  res_name :: string
  res_origin :: "string \<times> string"

definition setFile :: "string \<Rightarrow> resource \<Rightarrow> resource" where
  "setFile v r = r\<lparr>res_file := v\<rparr>"

definition setName :: "string \<Rightarrow> resource \<Rightarrow> resource" where
  "setName v r = r\<lparr>res_name := v\<rparr>"

definition setOrigin :: "string \<Rightarrow> string \<Rightarrow> resource \<Rightarrow> resource" where
  "setOrigin originName originIdentifier r = r\<lparr>res_origin := (originName, originIdentifier)\<rparr>"

text \<open>An element of the derived list \<^verbatim>\<open>invalidFiles\<close>: \<^verbatim>\<open>{ filename, error }\<close>.\<close>

record errored_file =
  filename :: string
  file_error :: string

text \<open>
  A JavaScript number: an IEEE 754 double. A finite double is the rational number it
  denotes (the sign of zero is not kept); the other values are \<^verbatim>\<open>NaN\<close> and the two
  infinities.
\<close>

datatype js_number = Num rat | NaN | PosInfinity | NegInfinity

text \<open>Rounding to the nearest integer, a tie going to the even one.\<close>

definition round_half_even :: "rat \<Rightarrow> int" where
  "round_half_even q =
     (let n = \<lfloor>q\<rfloor>; r = q - of_int n
      in if r < 1 / 2 then n
         else if 1 / 2 < r then n + 1
         else if even n then n else n + 1)"

text \<open>
  For \<open>0 < x\<close>, the integer \<open>e\<close> with \<open>2\<^sup>e \<le> x < 2\<^sup>e\<^sup>+\<^sup>1\<close>, from the bit length of the
  integer part of \<open>x\<close> or of \<open>1 / x\<close>.
\<close>

definition floor_log2 :: "rat \<Rightarrow> int" where
  "floor_log2 x = (if 1 \<le> x then bitlen \<lfloor>x\<rfloor> - 1 else - bitlen (\<lceil>1 / x\<rceil> - 1))"

text \<open>
  The spacing of the doubles around \<open>x\<close>: 52 fraction bits below the exponent of \<open>x\<close>,
  and the exponent of the subnormal numbers below \<open>2\<^sup>-\<^sup>1\<^sup>0\<^sup>2\<^sup>2\<close>.
\<close>

definition ulp :: "rat \<Rightarrow> rat" where
  "ulp x = 2 powi (max (- 1022) (floor_log2 x) - 52)"

text \<open>For \<open>0 < x\<close>, the multiple of the spacing nearest to \<open>x\<close>, a tie going to the even one.\<close>

definition nearest :: "rat \<Rightarrow> rat" where
  "nearest x = of_int (round_half_even (x / ulp x)) * ulp x"

text \<open>
  The result of an arithmetic operation whose exact value is \<open>x\<close>: rounded to the
  nearest double, and an infinity when that is beyond the largest double.
\<close>

definition to_double :: "rat \<Rightarrow> js_number" where
  "to_double x =
     (if x = 0 then Num 0
      else if 0 < x then (if nearest x < 2 ^ 1024 then Num (nearest x) else PosInfinity)
      else (if nearest (- x) < 2 ^ 1024 then Num (- nearest (- x)) else NegInfinity))"

text \<open>
  Division and multiplication of doubles. Dividing by zero yields the non-finite values
  it yields in JavaScript instead of HOL's \<open>x / 0 = 0\<close>.
\<close>

definition js_div :: "rat \<Rightarrow> rat \<Rightarrow> js_number" where
  "js_div a b =
     (if b \<noteq> 0 then to_double (a / b)
      else if a = 0 then NaN
      else if 0 < a then PosInfinity
      else NegInfinity)"

fun js_mul :: "js_number \<Rightarrow> rat \<Rightarrow> js_number" where
  "js_mul (Num a) m = to_double (a * m)"
| "js_mul NaN m = NaN"
| "js_mul PosInfinity m = (if 0 < m then PosInfinity else if m < 0 then NegInfinity else NaN)"
| "js_mul NegInfinity m = (if 0 < m then NegInfinity else if m < 0 then PosInfinity else NaN)"

text \<open>\<^verbatim>\<open>FileMetadata\<close>: only \<^verbatim>\<open>fileIdentifier\<close> is read.\<close>

record file_metadata =
  fileIdentifier :: string

text \<open>
  Everything the component receives from outside: its props, the authenticated-user
  context, the storage provider returned by \<^verbatim>\<open>getStorageProvider\<close>, whether
  \<^verbatim>\<open>inputRef.current\<close> is mounted, and the constant imported from the project service.
  \<^verbatim>\<open>createNewResource\<close> is the blank resource the factory returns; \<^verbatim>\<open>onChooseResources\<close>
  returns the error it throws, if it throws.
\<close>

record env =
  fileMetadata :: "file_metadata option"
  storageProviderInternalName :: string
  authenticated :: bool
  inputCurrent :: bool
  createNewResource :: resource
  onChooseResources :: "resource list \<Rightarrow> js_error option"
  PROJECT_RESOURCE_MAX_SIZE_IN_BYTES :: nat

text \<open>
  The React state of the component (\<^verbatim>\<open>error\<close>, \<^verbatim>\<open>isUploading\<close>, \<^verbatim>\<open>selectedFiles\<close>,
  \<^verbatim>\<open>uploadProgress\<close>), together with a log of the calls made to the two external
  collaborators: \<^verbatim>\<open>uploadProjectResourceFiles\<close> (project id and files) and
  \<^verbatim>\<open>onChooseResources\<close> (the resource list handed over).
\<close>

record uploader =
  error :: "thrown option"
  isUploading :: bool
  selectedFiles :: "js_file list"
  uploadProgress :: js_number
  uploadCalls :: "(string \<times> js_file list) list"
  chooseCalls :: "resource list list"

definition initialState :: uploader where
  "initialState =
     \<lparr>error = None, isUploading = False, selectedFiles = [], uploadProgress = Num 0,
      uploadCalls = [], chooseCalls = []\<rparr>"

text \<open>
  What one awaited call of \<^verbatim>\<open>uploadProjectResourceFiles\<close> does: the progress
  callbacks it makes, in order, and then either a rejection or the list of results.
\<close>

record service_run =
  progressCalls :: "(rat \<times> rat) list"
  outcome :: "js_error + uploaded_file list"

section \<open>Derived values of a render\<close>

definition hasSelectedFiles :: "uploader \<Rightarrow> bool" where
  "hasSelectedFiles st = (length (selectedFiles st) > 0)"

definition cloudProjectId :: "env \<Rightarrow> string option" where
  "cloudProjectId env =
     (case fileMetadata env of Some m \<Rightarrow> Some (fileIdentifier m) | None \<Rightarrow> None)"

text \<open>
  \<^verbatim>\<open>selectedFiles.map(file => file.size > MAX ? {filename, error: 'too-large'} : null)
  .filter(Boolean)\<close>
\<close>

definition invalidFiles :: "env \<Rightarrow> uploader \<Rightarrow> errored_file list" where
  "invalidFiles env st =
     map the
       (filter (\<lambda>entry. entry \<noteq> None)
          (map (\<lambda>f. if file_size f > PROJECT_RESOURCE_MAX_SIZE_IN_BYTES env
                     then Some \<lparr>filename = file_name f, file_error = ''too-large''\<rparr>
                     else None)
               (selectedFiles st)))"

definition canUploadWithThisStorageProvider :: "env \<Rightarrow> bool" where
  "canUploadWithThisStorageProvider env =
     (storageProviderInternalName env = ''Cloud'' \<and> fileMetadata env \<noteq> None)"

definition isConnected :: "env \<Rightarrow> bool" where
  "isConnected env = authenticated env"

definition canChooseFiles :: "env \<Rightarrow> uploader \<Rightarrow> bool" where
  "canChooseFiles env st =
     (\<not> isUploading st \<and> isConnected env \<and> canUploadWithThisStorageProvider env)"

definition canUploadFiles :: "env \<Rightarrow> uploader \<Rightarrow> bool" where
  "canUploadFiles env st =
     (\<not> isUploading st \<and> canChooseFiles env st \<and> hasSelectedFiles st \<and>
      length (invalidFiles env st) = 0)"

text \<open>The alerts rendered by \<^verbatim>\<open>invalidFiles.map(erroredFile => ...)\<close>.\<close>

datatype alert = TooLargeAlert string | InvalidFileAlert string

definition renderInvalidFiles :: "errored_file list \<Rightarrow> alert list" where
  "renderInvalidFiles entries =
     map (\<lambda>erroredFile.
            if file_error erroredFile = ''too-large''
            then TooLargeAlert (filename erroredFile)
            else InvalidFileAlert (filename erroredFile))
         entries"

section \<open>The file picker's change handler\<close>

text \<open>
  \<^verbatim>\<open>for (let i = 0; i < event.currentTarget.files.length; i++)
    files.push(event.currentTarget.files[i]);\<close>
\<close>

function pushFiles :: "js_file list \<Rightarrow> nat \<Rightarrow> js_file list \<Rightarrow> js_file list" where
  "pushFiles fileList i files =
     (if i < length fileList then pushFiles fileList (i + 1) (files @ [fileList ! i])
      else files)"
  by pat_completeness auto
termination
  by (relation "measure (\<lambda>(fileList, i, files). length fileList - i)") auto

declare pushFiles.simps [simp del]

definition onChange :: "js_file list \<Rightarrow> uploader \<Rightarrow> uploader" where
  "onChange fileList st = st\<lparr>selectedFiles := pushFiles fileList 0 [], error := None\<rparr>"

section \<open>The upload action\<close>

text \<open>JavaScript truthiness of a nullable string (\<^verbatim>\<open>!!url\<close>) and \<^verbatim>\<open>url || ''\<close>.\<close>

definition truthy :: "string option \<Rightarrow> bool" where
  "truthy s = (case s of None \<Rightarrow> False | Some v \<Rightarrow> v \<noteq> [])"

definition orEmpty :: "string option \<Rightarrow> string" where
  "orEmpty s = (if truthy s then the s else [])"

definition erroredResults :: "uploaded_file list \<Rightarrow> uploaded_file list" where
  "erroredResults results = filter (\<lambda>r. result_error r \<noteq> None) results"

definition okResults :: "uploaded_file list \<Rightarrow> uploaded_file list" where
  "okResults results = filter (\<lambda>r. truthy (result_url r)) results"

text \<open>The body of \<^verbatim>\<open>okResults.map(({ url, resourceFile }) => ...)\<close>.\<close>

definition newResource :: "env \<Rightarrow> uploaded_file \<Rightarrow> resource" where
  "newResource env r =
     setOrigin ''cloud-project-resource'' (orEmpty (result_url r))
       (setName (file_name (resourceFile r))
          (setFile (orEmpty (result_url r)) (createNewResource env)))"

text \<open>
  The statements of \<^verbatim>\<open>onUpload\<close> up to the call of the upload service. \<open>None\<close> is one
  of the two early returns.
\<close>

definition onUpload_begin :: "env \<Rightarrow> uploader \<Rightarrow> uploader option" where
  "onUpload_begin env st =
     (if \<not> inputCurrent env then None
      else if \<not> truthy (cloudProjectId env) then None
      else Some (st\<lparr>isUploading := True, error := None, uploadProgress := Num 0,
                    uploadCalls := uploadCalls st @ [(the (cloudProjectId env), selectedFiles st)]\<rparr>))"

text \<open>The progress callback: \<^verbatim>\<open>setUploadProgress((current / total) * 100)\<close>.\<close>

definition onProgress :: "rat \<Rightarrow> rat \<Rightarrow> uploader \<Rightarrow> uploader" where
  "onProgress current_n total_n st = st\<lparr>uploadProgress := js_mul (js_div current_n total_n) 100\<rparr>"

text \<open>
  The statements of the \<^verbatim>\<open>try\<close> block after the awaited call has resolved: the value
  thrown, if any, and the state.
\<close>

definition onUpload_results :: "env \<Rightarrow> uploaded_file list \<Rightarrow> uploader \<Rightarrow> thrown option \<times> uploader" where
  "onUpload_results env results st =
     (if length (erroredResults results) \<noteq> 0
      then (Some (ThrownResult (hd (erroredResults results))), st)
      else if length (okResults results) \<noteq> 0
      then (let resources = map (newResource env) (okResults results)
            in (map_option ThrownError (onChooseResources env resources),
                st\<lparr>chooseCalls := chooseCalls st @ [resources]\<rparr>))
      else (None, st))"

text \<open>How the \<^verbatim>\<open>try\<close> block ends once the awaited call has rejected or resolved.\<close>

definition onUpload_try :: "env \<Rightarrow> js_error + uploaded_file list \<Rightarrow> uploader \<Rightarrow> thrown option \<times> uploader" where
  "onUpload_try env out st =
     (case out of
        Inl e \<Rightarrow> (Some (ThrownError e), st)
      | Inr results \<Rightarrow> onUpload_results env results st)"

text \<open>The end of the \<^verbatim>\<open>try\<close> block, then \<^verbatim>\<open>catch\<close>, then \<^verbatim>\<open>finally\<close>.\<close>

definition onUpload_settle :: "env \<Rightarrow> js_error + uploaded_file list \<Rightarrow> uploader \<Rightarrow> uploader" where
  "onUpload_settle env out st =
     (case onUpload_try env out st of
        (None, st') \<Rightarrow> st'\<lparr>isUploading := False\<rparr>
      | (Some e, st') \<Rightarrow> st'\<lparr>error := Some e, isUploading := False\<rparr>)"

text \<open>One whole invocation of \<^verbatim>\<open>onUpload\<close>, from the call to the end of \<^verbatim>\<open>finally\<close>.\<close>

definition onUpload :: "env \<Rightarrow> service_run \<Rightarrow> uploader \<Rightarrow> uploader" where
  "onUpload env run st =
     (case onUpload_begin env st of
        None \<Rightarrow> st
      | Some st' \<Rightarrow>
          onUpload_settle env (outcome run)
            (foldl (\<lambda>s (current_n, total_n). onProgress current_n total_n s) st' (progressCalls run)))"

text \<open>
  The effect that starts the upload: \<^verbatim>\<open>if (canUploadFiles && !error) onUpload();\<close>.
  \<open>None\<close>: \<^verbatim>\<open>onUpload\<close> is not invoked.
\<close>

definition uploadEffect :: "env \<Rightarrow> service_run \<Rightarrow> uploader \<Rightarrow> uploader option" where
  "uploadEffect env run st =
     (if canUploadFiles env st \<and> error st = None then Some (onUpload env run st) else None)"

section \<open>The component as a transition system\<close>

text \<open>
  The upload is asynchronous, so its beginning and its settling are separate events.
  An event is enabled as the rendered markup enables it: the input is
  \<^verbatim>\<open>disabled={!canChooseFiles}\<close>, the Retry button is rendered under \<^verbatim>\<open>error &&\<close>, the
  effect calls \<^verbatim>\<open>onUpload\<close> under its guard, and the service calls back or settles only
  while an upload is in flight. React runs the effect after a render in which one of its
  dependencies has changed; here it may run whenever its guard holds, which allows every
  behaviour of the component and more. The props and the context stay the same during
  a run.
\<close>

datatype event =
    Change "js_file list"
  | EffectRun
  | RetryClick
  | Progress rat rat
  | Settle "js_error + uploaded_file list"

definition onUpload_sync :: "env \<Rightarrow> uploader \<Rightarrow> uploader" where
  "onUpload_sync env st = (case onUpload_begin env st of None \<Rightarrow> st | Some st' \<Rightarrow> st')"

fun fire :: "env \<Rightarrow> event \<Rightarrow> uploader \<Rightarrow> uploader option" where
  "fire env (Change fileList) st =
     (if canChooseFiles env st then Some (onChange fileList st) else None)"
| "fire env EffectRun st =
     (if canUploadFiles env st \<and> error st = None then Some (onUpload_sync env st) else None)"
| "fire env RetryClick st =
     (if error st \<noteq> None then Some (onUpload_sync env st) else None)"
| "fire env (Progress current_n total_n) st =
     (if isUploading st then Some (onProgress current_n total_n st) else None)"
| "fire env (Settle out) st =
     (if isUploading st then Some (onUpload_settle env out st) else None)"

fun run_events :: "env \<Rightarrow> event list \<Rightarrow> uploader \<Rightarrow> uploader option" where
  "run_events env [] st = Some st"
| "run_events env (e # es) st =
     (case fire env e st of None \<Rightarrow> None | Some st' \<Rightarrow> run_events env es st')"

section \<open>An invariant of the transition system\<close>

text \<open>
  While an upload is in flight or an error is stored, the selection holds no oversized
  file; while an upload is in flight no error is stored; and no call of the upload
  service ever received an oversized file.
\<close>

definition upload_safe :: "env \<Rightarrow> uploader \<Rightarrow> bool" where
  "upload_safe env st =
     ((isUploading st \<or> error st \<noteq> None \<longrightarrow> invalidFiles env st = [])
      \<and> (isUploading st \<longrightarrow> error st = None)
      \<and> (\<forall>call \<in> set (uploadCalls st).
            \<forall>f \<in> set (snd call). file_size f \<le> PROJECT_RESOURCE_MAX_SIZE_IN_BYTES env))"

section \<open>Concrete values\<close>

definition example_env :: env where
  "example_env =
     \<lparr>fileMetadata = Some \<lparr>fileIdentifier = ''project-1''\<rparr>,
      storageProviderInternalName = ''Cloud'',
      authenticated = True,
      inputCurrent = True,
      createNewResource = \<lparr>res_file = [], res_name = [], res_origin = ([], [])\<rparr>,
      onChooseResources = (\<lambda>resources. None),
      PROJECT_RESOURCE_MAX_SIZE_IN_BYTES = 5000000\<rparr>"

definition big_file :: js_file where
  "big_file = \<lparr>file_name = ''big.png'', file_size = 10000000\<rparr>"

definition valid_file :: js_file where
  "valid_file = \<lparr>file_name = ''valid.png'', file_size = 1024\<rparr>"

definition exact_file :: js_file where
  "exact_file = \<lparr>file_name = ''exact.png'', file_size = 5000000\<rparr>"

definition ok_result :: uploaded_file where
  "ok_result =
     \<lparr>result_error = None, resourceFile = valid_file, result_url = Some ''https://x/y.png''\<rparr>"

definition failed_result :: uploaded_file where
  "failed_result =
     \<lparr>result_error = Some (JsError ''upload failed''), resourceFile = big_file,
      result_url = None\<rparr>"

definition empty_result :: uploaded_file where
  "empty_result = \<lparr>result_error = None, resourceFile = exact_file, result_url = Some ''''\<rparr>"

definition resolved_run :: "uploaded_file list \<Rightarrow> service_run" where
  "resolved_run results = \<lparr>progressCalls = [(1, 2), (2, 2)], outcome = Inr results\<rparr>"

definition rejected_run :: service_run where
  "rejected_run = \<lparr>progressCalls = [(1, 2)], outcome = Inl (JsError ''network'')\<rparr>"

definition other_failed_result :: uploaded_file where
  "other_failed_result =
     \<lparr>result_error = Some (JsError ''quota exceeded''), resourceFile = exact_file,
      result_url = None\<rparr>"

definition example_events :: "event list" where
  "example_events =
     [Change [valid_file], EffectRun, Progress 1 2, Settle (Inl (JsError ''network'')),
      Change [big_file]]"

definition example_final :: uploader where
  "example_final =
     \<lparr>error = None, isUploading = False, selectedFiles = [big_file], uploadProgress = Num 50,
      uploadCalls = [(''project-1'', [valid_file])], chooseCalls = []\<rparr>"

definition failed_state :: uploader where
  "failed_state =
     \<lparr>error = Some (ThrownError (JsError ''network'')), isUploading = False,
      selectedFiles = [valid_file], uploadProgress = Num 50,
      uploadCalls = [(''project-1'', [valid_file])], chooseCalls = []\<rparr>"

section \<open>Properties of the derived values and of the handlers\<close>

text \<open>The loop of the change handler copies the file list.\<close>

lemma pushFiles_from: "i \<le> length fileList \<Longrightarrow> pushFiles fileList i files = files @ drop i fileList"
proof (induction fileList i files rule: pushFiles.induct)
  case (1 fileList i files)
  show ?case
  proof (cases "i < length fileList")
    case True
    then have "pushFiles fileList i files = pushFiles fileList (i + 1) (files @ [fileList ! i])"
      by (simp add: pushFiles.simps[of fileList i files])
    also have "\<dots> = (files @ [fileList ! i]) @ drop (i + 1) fileList"
      using True 1 by simp
    also have "\<dots> = files @ drop i fileList"
      using True by (simp add: Cons_nth_drop_Suc)
    finally show ?thesis .
  next
    case False
    then have "i = length fileList" using 1 by simp
    then show ?thesis by (subst pushFiles.simps) simp
  qed
qed

lemma pushFiles_all: "pushFiles fileList 0 [] = fileList"
  by (simp add: pushFiles_from)

text \<open>The invalid entries are exactly the oversized files, in selection order.\<close>

lemma map_filter_too_large:
  "map the (filter (\<lambda>entry. entry \<noteq> None)
      (map (\<lambda>f. if P f then Some (g f) else None) fs)) = map g (filter P fs)"
  by (induction fs) simp_all

lemma invalidFiles_eq:
  "invalidFiles env st =
     map (\<lambda>f. \<lparr>filename = file_name f, file_error = ''too-large''\<rparr>)
       (filter (\<lambda>f. file_size f > PROJECT_RESOURCE_MAX_SIZE_IN_BYTES env) (selectedFiles st))"
  unfolding invalidFiles_def by (rule map_filter_too_large)

lemma invalidFiles_empty_iff:
  "(invalidFiles env st = []) =
     (\<forall>f \<in> set (selectedFiles st). file_size f \<le> PROJECT_RESOURCE_MAX_SIZE_IN_BYTES env)"
  by (auto simp: invalidFiles_eq filter_empty_conv not_less)

lemma invalidFiles_same_selection:
  "selectedFiles st' = selectedFiles st \<Longrightarrow> invalidFiles env st' = invalidFiles env st"
  by (simp add: invalidFiles_eq)

text \<open>Rounding to the nearest double: the exponent, the error and the range.\<close>

lemma floor_log2_bounds:
  assumes "0 < x"
  shows "2 powi (floor_log2 x) \<le> x \<and> x < 2 powi (floor_log2 x + 1)"
proof (cases "1 \<le> x")
  case True
  define n where "n = \<lfloor>x\<rfloor>"
  define b where "b = bitlen n"
  have n: "0 < n" using True by (simp add: n_def)
  from bitlen_bounds[OF n] have lo: "2 ^ nat (b - 1) \<le> n" and hi: "n < 2 ^ nat b"
    by (simp_all add: b_def)
  have b1: "1 \<le> b"
  proof (rule ccontr)
    assume "\<not> 1 \<le> b"
    then have "nat b = 0" by simp
    with hi n show False by simp
  qed
  have e: "floor_log2 x = b - 1" using True by (simp add: floor_log2_def n_def b_def)
  have "(2::rat) powi (b - 1) = of_int (2 ^ nat (b - 1))"
    using b1 by (simp add: power_int_nonneg_exp)
  also have "\<dots> \<le> of_int n" using lo by (simp only: of_int_le_iff)
  also have "\<dots> \<le> x" by (simp add: n_def)
  finally have 1: "2 powi (b - 1) \<le> x" .
  have "n + 1 \<le> 2 ^ nat b" using hi by simp
  then have "(of_int (n + 1) :: rat) \<le> of_int (2 ^ nat b)" by (simp only: of_int_le_iff)
  moreover have "x < of_int (n + 1)" by (simp add: n_def) linarith
  moreover have "(2::rat) powi b = of_int (2 ^ nat b)"
    using b1 by (simp add: power_int_nonneg_exp)
  ultimately have 2: "x < 2 powi b" by simp
  from 1 2 e show ?thesis by simp
next
  case False
  define r where "r = 1 / x"
  define k where "k = \<lceil>r\<rceil> - 1"
  define b where "b = bitlen k"
  have r1: "1 < r" using False assms by (simp add: r_def)
  have k: "0 < k" using r1 by (simp add: k_def less_ceiling_iff)
  from bitlen_bounds[OF k] have lo: "2 ^ nat (b - 1) \<le> k" and hi: "k < 2 ^ nat b"
    by (simp_all add: b_def)
  have b1: "1 \<le> b"
  proof (rule ccontr)
    assume "\<not> 1 \<le> b"
    then have "nat b = 0" by simp
    with hi k show False by simp
  qed
  have e: "floor_log2 x = - b" using False by (simp add: floor_log2_def r_def k_def b_def)
  have x: "x = 1 / r" using assms by (simp add: r_def)
  have "r \<le> of_int (k + 1)" by (simp add: k_def)
  also have "\<dots> \<le> of_int (2 ^ nat b)" using hi by (simp only: of_int_le_iff)
  finally have "r \<le> 2 ^ nat b" by simp
  then have "1 / (2 ^ nat b) \<le> 1 / r" using r1 by (simp add: frac_le)
  moreover have "(2::rat) powi (- b) = 1 / 2 ^ nat b"
    using b1 by (simp add: power_int_minus_divide power_int_nonneg_exp)
  ultimately have 1: "2 powi (- b) \<le> x" using x by simp
  have "of_int k < r" by (simp add: k_def) linarith
  moreover have "(2::rat) ^ nat (b - 1) \<le> of_int k"
  proof -
    have "(of_int (2 ^ nat (b - 1)) :: rat) \<le> of_int k" using lo by (simp only: of_int_le_iff)
    then show ?thesis by simp
  qed
  ultimately have "2 ^ nat (b - 1) < r" by linarith
  then have "1 / r < 1 / 2 ^ nat (b - 1)" by (simp add: frac_less2)
  moreover have "(2::rat) powi (- b + 1) = 1 / 2 ^ nat (b - 1)"
  proof -
    have "- b + 1 = - (b - 1)" by simp
    then show ?thesis using b1 by (simp only: power_int_minus_divide) (simp add: power_int_nonneg_exp)
  qed
  ultimately have 2: "x < 2 powi (- b + 1)" using x by simp
  from 1 2 e show ?thesis by simp
qed

lemma power_int_less_imp_less_exp2:
  assumes "(2::rat) powi m < 2 powi n"
  shows "m < n"
proof (rule ccontr)
  assume "\<not> m < n"
  then have "n \<le> m" by simp
  then have "(2::rat) powi n \<le> 2 powi m" by (intro power_int_increasing) simp_all
  with assms show False by simp
qed

lemma floor_log2_unique:
  assumes "0 < x" and "2 powi e \<le> x" and "x < 2 powi (e + 1)"
  shows "floor_log2 x = e"
proof -
  from floor_log2_bounds[OF assms(1)]
  have lo: "2 powi (floor_log2 x) \<le> x" and hi: "x < 2 powi (floor_log2 x + 1)" by simp_all
  from assms(2) hi have "(2::rat) powi e < 2 powi (floor_log2 x + 1)" by simp
  then have 1: "e < floor_log2 x + 1"
    by (rule power_int_less_imp_less_exp2)
  from lo assms(3) have "(2::rat) powi (floor_log2 x) < 2 powi (e + 1)" by simp
  then have 2: "floor_log2 x < e + 1"
    by (rule power_int_less_imp_less_exp2)
  from 1 2 show ?thesis by simp
qed


lemma round_half_even_error: "\<bar>of_int (round_half_even q) - q\<bar> \<le> 1 / 2"
proof -
  have "of_int \<lfloor>q\<rfloor> \<le> q" and "q < of_int \<lfloor>q\<rfloor> + 1" by linarith+
  then show ?thesis by (auto simp: round_half_even_def Let_def)
qed

lemma round_half_even_unique:
  assumes "\<bar>of_int n - q\<bar> < 1 / 2"
  shows "round_half_even q = n"
proof (cases "of_int n \<le> q")
  case True
  with assms have "q < of_int n + 1" by linarith
  with True have "\<lfloor>q\<rfloor> = n" by linarith
  with assms True show ?thesis by (auto simp: round_half_even_def Let_def)
next
  case False
  with assms have "of_int (n - 1) \<le> q" and "q < of_int (n - 1) + 1" by simp_all
  then have "\<lfloor>q\<rfloor> = n - 1" by linarith
  with assms False show ?thesis by (auto simp: round_half_even_def Let_def)
qed

lemma round_half_even_le:
  assumes "q \<le> of_int m"
  shows "round_half_even q \<le> m"
proof (cases "\<lfloor>q\<rfloor> = m")
  case True
  then have "of_int m \<le> q" by linarith
  with assms have "q = of_int m" by simp
  then show ?thesis by (simp add: round_half_even_def)
next
  case False
  moreover have "\<lfloor>q\<rfloor> \<le> m" using assms by (simp add: floor_le_iff)
  ultimately have "\<lfloor>q\<rfloor> + 1 \<le> m" by simp
  then show ?thesis by (auto simp: round_half_even_def Let_def)
qed

lemma round_half_even_nonneg:
  assumes "0 \<le> q"
  shows "0 \<le> round_half_even q"
proof -
  have "0 \<le> \<lfloor>q\<rfloor>" using assms by simp
  then show ?thesis by (auto simp: round_half_even_def Let_def)
qed

lemma ulp_pos: "0 < ulp x"
  by (simp add: ulp_def)

lemma ulp_le:
  assumes "0 < x" and "x < 2 powi (k + 1)" and "- 1022 \<le> k"
  shows "ulp x \<le> 2 powi (k - 52)"
proof -
  from floor_log2_bounds[OF assms(1)] assms(2)
  have "(2::rat) powi (floor_log2 x) < 2 powi (k + 1)" by simp
  then have "floor_log2 x < k + 1" by (rule power_int_less_imp_less_exp2)
  with assms(3) have "max (- 1022) (floor_log2 x) - 52 \<le> k - 52" by simp
  then show ?thesis unfolding ulp_def by (intro power_int_increasing) simp_all
qed

lemma nearest_eval:
  assumes "0 < x" and "2 powi e \<le> x" and "x < 2 powi (e + 1)" and "- 1022 \<le> e"
    and "\<bar>of_int n - x / 2 powi (e - 52)\<bar> < 1 / 2"
  shows "nearest x = of_int n * 2 powi (e - 52)"
proof -
  have "floor_log2 x = e" using assms(1-3) by (rule floor_log2_unique)
  with assms(4) have u: "ulp x = 2 powi (e - 52)" by (simp add: ulp_def)
  show ?thesis unfolding nearest_def u
    using round_half_even_unique[OF assms(5)] by simp
qed

lemma nearest_error:
  assumes "0 < x" and "x < 2 powi (k + 1)" and "- 1022 \<le> k"
  shows "\<bar>nearest x - x\<bar> \<le> 2 powi (k - 53)"
proof -
  have "nearest x - x = (of_int (round_half_even (x / ulp x)) - x / ulp x) * ulp x"
    using ulp_pos[of x] by (simp add: nearest_def field_simps)
  then have "\<bar>nearest x - x\<bar> = \<bar>of_int (round_half_even (x / ulp x)) - x / ulp x\<bar> * ulp x"
    using ulp_pos[of x] by (simp add: abs_mult)
  also have "\<dots> \<le> (1 / 2) * ulp x"
    using round_half_even_error[of "x / ulp x"] ulp_pos[of x]
    by (intro mult_right_mono) simp_all
  also have "\<dots> \<le> (1 / 2) * 2 powi (k - 52)"
    using ulp_le[OF assms] by simp
  also have "\<dots> = 2 powi (k - 53)"
  proof -
    have "k - 52 = (k - 53) + 1" by simp
    then have "(2::rat) powi (k - 52) = 2 powi (k - 53) * 2"
      using power_int_add_1[of "2::rat" "k - 53"] by simp
    then show ?thesis by simp
  qed
  finally show ?thesis .
qed

lemma nearest_nonneg:
  assumes "0 < x"
  shows "0 \<le> nearest x"
proof -
  have "0 \<le> x / ulp x" using assms ulp_pos[of x] by simp
  from round_half_even_nonneg[OF this] ulp_pos[of x] show ?thesis
    by (simp add: nearest_def)
qed

lemma nearest_le:
  assumes "0 < x" and "x \<le> of_int m" and "x < 2 powi 53"
  shows "nearest x \<le> of_int m"
proof -
  define d where "d = 52 - max (- 1022) (floor_log2 x)"
  from floor_log2_bounds[OF assms(1)] assms(3)
  have "(2::rat) powi (floor_log2 x) < 2 powi 53" by simp
  then have "floor_log2 x < 53" by (rule power_int_less_imp_less_exp2)
  then have d: "0 \<le> d" by (simp add: d_def)
  have u: "ulp x = 1 / 2 ^ nat d"
  proof -
    have "max (- 1022) (floor_log2 x) - 52 = - d" by (simp add: d_def)
    then have "ulp x = 2 powi (- d)" by (simp add: ulp_def)
    then show ?thesis using d by (simp add: power_int_minus_divide power_int_nonneg_exp)
  qed
  have "x / ulp x = x * 2 ^ nat d" by (simp add: u)
  also have "\<dots> \<le> of_int m * 2 ^ nat d" using assms(2) by simp
  also have "\<dots> = of_int (m * 2 ^ nat d)" by simp
  finally have "round_half_even (x / ulp x) \<le> m * 2 ^ nat d" by (rule round_half_even_le)
  then have "(of_int (round_half_even (x / ulp x)) :: rat) \<le> of_int (m * 2 ^ nat d)"
    by (simp only: of_int_le_iff)
  then have "of_int (round_half_even (x / ulp x)) * ulp x \<le> of_int (m * 2 ^ nat d) * ulp x"
    using ulp_pos[of x] by (intro mult_right_mono) simp_all
  also have "\<dots> = of_int m" by (simp add: u)
  finally show ?thesis by (simp add: nearest_def)
qed


lemma to_double_pos:
  assumes "0 < x" and "nearest x < 2 ^ 1024"
  shows "to_double x = Num (nearest x)"
  using assms by (simp add: to_double_def)

lemma nearest_1: "nearest 1 = 1"
  using nearest_eval[of 1 0 4503599627370496] by simp

lemma nearest_100: "nearest 100 = 100"
  using nearest_eval[of 100 6 7036874417766400] by simp

lemma nearest_half: "nearest (1 / 2) = 1 / 2"
  using nearest_eval[of "1 / 2" "- 1" 4503599627370496] by simp

lemma nearest_50: "nearest 50 = 50"
  using nearest_eval[of 50 5 7036874417766400] by simp

lemma nearest_7_25: "nearest (7 / 25) = 1261007895663739 / 4503599627370496"
  using nearest_eval[of "7 / 25" "- 2" 5044031582654956] by simp

lemma nearest_7_25_times_100:
  "nearest (1261007895663739 / 4503599627370496 * 100) = 7881299347898369 / 281474976710656"
  using nearest_eval[of "1261007895663739 / 4503599627370496 * 100" 4 7881299347898369] by simp

lemma js_percentage_7_25:
  "js_mul (js_div 7 25) 100 = Num (7881299347898369 / 281474976710656)"
proof -
  have "js_div 7 25 = Num (1261007895663739 / 4503599627370496)"
    by (simp add: js_div_def to_double_def nearest_7_25)
  then show ?thesis
    using nearest_7_25_times_100 by (simp add: to_double_def)
qed

lemma js_percentage_1_2: "js_mul (js_div 1 2) 100 = Num 50"
proof -
  have "js_div 1 2 = Num (1 / 2)"
    by (simp add: js_div_def to_double_def nearest_half)
  then show ?thesis
    using nearest_50 by (simp add: to_double_def)
qed

lemma js_percentage:
  assumes "0 \<le> c" and "c \<le> t" and "0 < t"
  shows "\<exists>p. js_mul (js_div c t) 100 = Num p \<and> 0 \<le> p \<and> p \<le> 100
           \<and> \<bar>p - 100 * c / t\<bar> \<le> 1 / 2 ^ 45"
proof (cases "c = 0")
  case True
  then have "js_mul (js_div c t) 100 = Num 0"
    using assms(3) by (simp add: js_div_def to_double_def)
  with True show ?thesis by simp
next
  case False
  define q where "q = c / t"
  define a where "a = nearest q"
  have q: "0 < q" "q \<le> 1" using False assms by (simp_all add: q_def)
  have a0: "0 \<le> a" unfolding a_def using q(1) by (rule nearest_nonneg)
  have a1: "a \<le> 1"
    using nearest_le[of q 1] q by (simp add: a_def)
  have "\<bar>a - q\<bar> \<le> 2 powi (0 - 53)"
    unfolding a_def using q by (intro nearest_error) simp_all
  then have aq: "\<bar>a - q\<bar> \<le> 1 / 2 ^ 53" by simp
  have big: "(100::rat) < 2 ^ 1024" by simp
  have "a < 2 ^ 1024" using a1 big by linarith
  then have d: "js_div c t = Num a"
    using assms(3) q(1) False by (simp add: js_div_def to_double_def a_def q_def)
  have e1: "\<bar>a * 100 - 100 * c / t\<bar> \<le> 100 / 2 ^ 53"
  proof -
    have "a * 100 - 100 * c / t = 100 * (a - q)" by (simp add: q_def algebra_simps)
    then have "\<bar>a * 100 - 100 * c / t\<bar> = \<bar>100 * (a - q)\<bar>" by (simp only:)
    also have "\<dots> = 100 * \<bar>a - q\<bar>" by (subst abs_mult) simp
    finally show ?thesis using aq by simp
  qed
  show ?thesis
  proof (cases "a = 0")
    case True
    then have "js_mul (js_div c t) 100 = Num 0" by (simp add: d to_double_def)
    moreover have "\<bar>0 - 100 * c / t\<bar> \<le> 1 / 2 ^ 45" using e1 True by simp
    ultimately show ?thesis by auto
  next
    case False
    define y where "y = a * 100"
    define p where "p = nearest y"
    have y: "0 < y" "y \<le> 100" using False a0 a1 by (simp_all add: y_def)
    have p0: "0 \<le> p" unfolding p_def using y(1) by (rule nearest_nonneg)
    have p1: "p \<le> 100"
      using nearest_le[of y 100] y by (simp add: p_def)
    have "\<bar>p - y\<bar> \<le> 2 powi (6 - 53)"
      unfolding p_def using y by (intro nearest_error) simp_all
    then have py: "\<bar>p - y\<bar> \<le> 1 / 2 ^ 47" by simp
    have "p < 2 ^ 1024" using p1 big by linarith
    then have m: "js_mul (js_div c t) 100 = Num p"
      using y(1) by (simp add: d to_double_def p_def y_def)
    have "\<bar>p - 100 * c / t\<bar> \<le> \<bar>p - y\<bar> + \<bar>y - 100 * c / t\<bar>" by simp
    also have "\<dots> \<le> 1 / 2 ^ 47 + 100 / 2 ^ 53" using py e1 by (simp add: y_def)
    also have "\<dots> \<le> 1 / 2 ^ 45" by simp
    finally show ?thesis using m p0 p1 by auto
  qed
qed

text \<open>What one invocation of the upload action changes.\<close>

lemma foldl_onProgress_frame:
  "error (foldl (\<lambda>s (c, t). onProgress c t s) st calls) = error st
   \<and> isUploading (foldl (\<lambda>s (c, t). onProgress c t s) st calls) = isUploading st
   \<and> selectedFiles (foldl (\<lambda>s (c, t). onProgress c t s) st calls) = selectedFiles st
   \<and> uploadCalls (foldl (\<lambda>s (c, t). onProgress c t s) st calls) = uploadCalls st
   \<and> chooseCalls (foldl (\<lambda>s (c, t). onProgress c t s) st calls) = chooseCalls st"
  by (induction calls arbitrary: st) (simp_all add: onProgress_def split: prod.splits)

lemma onUpload_try_frame:
  "error (snd (onUpload_try env out st)) = error st
   \<and> isUploading (snd (onUpload_try env out st)) = isUploading st
   \<and> selectedFiles (snd (onUpload_try env out st)) = selectedFiles st
   \<and> uploadProgress (snd (onUpload_try env out st)) = uploadProgress st
   \<and> uploadCalls (snd (onUpload_try env out st)) = uploadCalls st"
  by (simp add: onUpload_try_def onUpload_results_def Let_def split: sum.splits)

lemma onUpload_settle_fields:
  "isUploading (onUpload_settle env out st) = False"
  "error (onUpload_settle env out st) =
     (case fst (onUpload_try env out st) of None \<Rightarrow> error st | Some e \<Rightarrow> Some e)"
  "selectedFiles (onUpload_settle env out st) = selectedFiles st"
  "uploadCalls (onUpload_settle env out st) = uploadCalls st"
  "chooseCalls (onUpload_settle env out st) = chooseCalls (snd (onUpload_try env out st))"
  using onUpload_try_frame[of env out st]
  by (auto simp: onUpload_settle_def split: prod.splits option.splits)

lemma onUpload_started:
  assumes "inputCurrent env" and "truthy (cloudProjectId env)"
  shows "onUpload env run st =
     onUpload_settle env (outcome run)
       (foldl (\<lambda>s (c, t). onProgress c t s)
          (st\<lparr>isUploading := True, error := None, uploadProgress := Num 0,
              uploadCalls := uploadCalls st @ [(the (cloudProjectId env), selectedFiles st)]\<rparr>)
          (progressCalls run))"
  using assms by (simp add: onUpload_def onUpload_begin_def)

lemma onUpload_try_thrown_state_free:
  "fst (onUpload_try env out st) = fst (onUpload_try env out st')"
  by (simp add: onUpload_try_def onUpload_results_def Let_def split: sum.splits)

lemma onUpload_error:
  assumes "inputCurrent env" and "truthy (cloudProjectId env)"
  shows "error (onUpload env run st) = fst (onUpload_try env (outcome run) st)"
proof -
  let ?s = "foldl (\<lambda>s (c, t). onProgress c t s)
          (st\<lparr>isUploading := True, error := None, uploadProgress := Num 0,
              uploadCalls := uploadCalls st @ [(the (cloudProjectId env), selectedFiles st)]\<rparr>)
          (progressCalls run)"
  have e: "error ?s = None" by (simp add: foldl_onProgress_frame)
  have "error (onUpload env run st) =
      (case fst (onUpload_try env (outcome run) ?s) of None \<Rightarrow> error ?s | Some e \<Rightarrow> Some e)"
    by (simp only: onUpload_started[OF assms] onUpload_settle_fields)
  also have "\<dots> = fst (onUpload_try env (outcome run) ?s)"
    using e by (simp split: option.splits)
  also have "\<dots> = fst (onUpload_try env (outcome run) st)"
    by (rule onUpload_try_thrown_state_free)
  finally show ?thesis .
qed

lemma onUpload_chooseCalls:
  assumes "inputCurrent env" and "truthy (cloudProjectId env)"
  shows "chooseCalls (onUpload env run st) =
     (case outcome run of
        Inl e \<Rightarrow> chooseCalls st
      | Inr results \<Rightarrow>
          if erroredResults results = [] \<and> okResults results \<noteq> []
          then chooseCalls st @ [map (newResource env) (okResults results)]
          else chooseCalls st)"
  by (simp add: onUpload_started[OF assms] onUpload_settle_fields onUpload_try_def
      onUpload_results_def Let_def foldl_onProgress_frame split: sum.splits)

lemma onUpload_isUploading:
  assumes "inputCurrent env" and "truthy (cloudProjectId env)"
  shows "isUploading (onUpload env run st) = False"
  by (simp add: onUpload_started[OF assms] onUpload_settle_fields)

lemma onUpload_uploadCalls:
  assumes "inputCurrent env" and "truthy (cloudProjectId env)"
  shows "uploadCalls (onUpload env run st) =
           uploadCalls st @ [(the (cloudProjectId env), selectedFiles st)]"
  by (simp add: onUpload_started[OF assms] onUpload_settle_fields foldl_onProgress_frame)

lemma newResource_fields:
  "truthy (result_url r) \<Longrightarrow>
   newResource env r =
     (createNewResource env)\<lparr>res_file := the (result_url r),
        res_name := file_name (resourceFile r),
        res_origin := (''cloud-project-resource'', the (result_url r))\<rparr>"
  by (simp add: newResource_def setFile_def setName_def setOrigin_def orEmpty_def)

text \<open>Every event preserves the invariant.\<close>

lemma upload_safe_initial: "upload_safe env initialState"
  by (simp add: upload_safe_def initialState_def)

lemma onUpload_sync_safe:
  assumes "upload_safe env st" and "invalidFiles env st = []"
  shows "upload_safe env (onUpload_sync env st)"
proof (cases "onUpload_begin env st")
  case None
  then show ?thesis using assms(1) by (simp add: onUpload_sync_def)
next
  case (Some st')
  then have st': "st' = st\<lparr>isUploading := True, error := None, uploadProgress := Num 0,
      uploadCalls := uploadCalls st @ [(the (cloudProjectId env), selectedFiles st)]\<rparr>"
    by (simp add: onUpload_begin_def split: if_splits)
  have sel: "invalidFiles env st' = invalidFiles env st"
    by (rule invalidFiles_same_selection) (simp add: st')
  have small: "\<forall>f \<in> set (selectedFiles st). file_size f \<le> PROJECT_RESOURCE_MAX_SIZE_IN_BYTES env"
    using assms(2) by (simp add: invalidFiles_empty_iff)
  have "upload_safe env st'"
    unfolding upload_safe_def
  proof (intro conjI impI)
    show "invalidFiles env st' = []" using sel assms(2) by simp
    show "error st' = None" by (simp add: st')
    show "\<forall>call \<in> set (uploadCalls st').
            \<forall>f \<in> set (snd call). file_size f \<le> PROJECT_RESOURCE_MAX_SIZE_IN_BYTES env"
      using assms(1) small by (auto simp: st' upload_safe_def)
  qed
  then show ?thesis using Some by (simp add: onUpload_sync_def)
qed

lemma fire_safe:
  assumes "fire env e st = Some st'" and "upload_safe env st"
  shows "upload_safe env st'"
proof (cases e)
  case (Change fileList)
  then have st': "st' = onChange fileList st" and en: "\<not> isUploading st"
    using assms(1) by (auto simp: canChooseFiles_def split: if_splits)
  show ?thesis using assms(2) en by (simp add: st' upload_safe_def onChange_def)
next
  case EffectRun
  then have st': "st' = onUpload_sync env st" and "invalidFiles env st = []"
    using assms(1) by (auto simp: canUploadFiles_def split: if_splits)
  then show ?thesis using onUpload_sync_safe[OF assms(2)] by simp
next
  case RetryClick
  then have st': "st' = onUpload_sync env st" and "error st \<noteq> None"
    using assms(1) by (auto split: if_splits)
  then have "invalidFiles env st = []" using assms(2) by (simp add: upload_safe_def)
  then show ?thesis using onUpload_sync_safe[OF assms(2)] st' by simp
next
  case (Progress c t)
  then have st': "st' = onProgress c t st"
    using assms(1) by (auto split: if_splits)
  have "invalidFiles env st' = invalidFiles env st"
    by (rule invalidFiles_same_selection) (simp add: st' onProgress_def)
  then show ?thesis using assms(2) by (simp add: upload_safe_def st' onProgress_def)
next
  case (Settle out)
  then have st': "st' = onUpload_settle env out st" and up: "isUploading st"
    using assms(1) by (auto split: if_splits)
  have "invalidFiles env st' = invalidFiles env st"
    by (rule invalidFiles_same_selection) (simp add: st' onUpload_settle_fields)
  moreover have "invalidFiles env st = []" using assms(2) up by (simp add: upload_safe_def)
  ultimately show ?thesis
    using assms(2) by (simp add: upload_safe_def st' onUpload_settle_fields)
qed

lemma run_events_safe:
  "run_events env evs st = Some st' \<Longrightarrow> upload_safe env st \<Longrightarrow> upload_safe env st'"
proof (induction evs arbitrary: st)
  case Nil
  then show ?case by simp
next
  case (Cons e evs)
  from Cons.prems(1) obtain st1 where f: "fire env e st = Some st1"
    and r: "run_events env evs st1 = Some st'"
    by (auto split: option.splits)
  from fire_safe[OF f Cons.prems(2)] Cons.IH[OF r] show ?case by simp
qed

text \<open>
  At most one upload is in flight: while the uploading flag is set, neither the effect
  nor the Retry button can invoke the upload action, and the input is disabled.
\<close>

lemma one_upload_in_flight:
  assumes "run_events env evs initialState = Some st" and "isUploading st"
  shows "fire env EffectRun st = None \<and> fire env RetryClick st = None
       \<and> fire env (Change fileList) st = None"
proof -
  have "upload_safe env st"
    using run_events_safe[OF assms(1) upload_safe_initial] .
  with assms(2) have "error st = None" by (simp add: upload_safe_def)
  with assms(2) show ?thesis by (simp add: canUploadFiles_def canChooseFiles_def)
qed

lemmas render_defs =
  canUploadFiles_def canChooseFiles_def isConnected_def canUploadWithThisStorageProvider_def
  hasSelectedFiles_def invalidFiles_def onChange_def pushFiles_all

lemmas upload_defs =
  onUpload_def onUpload_begin_def cloudProjectId_def truthy_def orEmpty_def
  onProgress_def onUpload_settle_def onUpload_try_def onUpload_results_def
  erroredResults_def okResults_def newResource_def setFile_def setName_def setOrigin_def

section \<open>The claims\<close>

text \<open>
  Claim C1. The effect that starts the upload invokes \<^verbatim>\<open>onUpload\<close> if and only if the
  uploading flag is false, the user is authenticated, the storage provider's internal
  name is \<^verbatim>\<open>'Cloud'\<close> and the file metadata is present, at least one file is selected,
  the list of invalid files is empty and no error is stored; under any other combination
  it does not invoke it. (React runs the effect after a render in which one of
  \<^verbatim>\<open>canUploadFiles\<close>, \<^verbatim>\<open>onUpload\<close>, \<^verbatim>\<open>error\<close> has changed; the statement is about what the
  effect does when it runs.)
\<close>

theorem upload_auto_fires_iff:
  "(uploadEffect env run st = Some (onUpload env run st)) =
     (\<not> isUploading st \<and> authenticated env \<and>
      storageProviderInternalName env = ''Cloud'' \<and> fileMetadata env \<noteq> None \<and>
      selectedFiles st \<noteq> [] \<and> invalidFiles env st = [] \<and> error st = None)
   \<and> (uploadEffect env run st = None) =
     (\<not> (\<not> isUploading st \<and> authenticated env \<and>
      storageProviderInternalName env = ''Cloud'' \<and> fileMetadata env \<noteq> None \<and>
      selectedFiles st \<noteq> [] \<and> invalidFiles env st = [] \<and> error st = None))"
  by (auto simp: uploadEffect_def canUploadFiles_def canChooseFiles_def isConnected_def
      canUploadWithThisStorageProvider_def hasSelectedFiles_def)

theorem upload_auto_fires_iff_witness:
  "uploadEffect example_env rejected_run (onChange [valid_file] initialState)
     = Some (onUpload example_env rejected_run (onChange [valid_file] initialState))
   \<and> uploadEffect example_env rejected_run (onChange [big_file] initialState) = None
   \<and> uploadEffect example_env rejected_run failed_state = None"
  using upload_auto_fires_iff[of example_env rejected_run "onChange [valid_file] initialState"]
    upload_auto_fires_iff[of example_env rejected_run "onChange [big_file] initialState"]
    upload_auto_fires_iff[of example_env rejected_run failed_state]
  by (simp add: example_env_def valid_file_def big_file_def failed_state_def initialState_def
      uploadEffect_def render_defs)

text \<open>
  Claim C2. Every selected file whose size is strictly greater than
  \<^verbatim>\<open>PROJECT_RESOURCE_MAX_SIZE_IN_BYTES\<close> has its entry (file name, \<^verbatim>\<open>'too-large'\<close>) in the
  list of invalid files. In every state the component reaches from its initial state,
  while such a file is selected neither the effect nor the Retry button can invoke
  \<^verbatim>\<open>onUpload\<close> and no upload is in flight; and no call ever made to the upload service
  received an oversized file.
\<close>

theorem oversized_files_flagged_and_never_uploaded:
  assumes "run_events env evs initialState = Some st"
  shows "(\<forall>f \<in> set (selectedFiles st).
            file_size f > PROJECT_RESOURCE_MAX_SIZE_IN_BYTES env \<longrightarrow>
            \<lparr>filename = file_name f, file_error = ''too-large''\<rparr> \<in> set (invalidFiles env st))
       \<and> ((\<exists>f \<in> set (selectedFiles st). file_size f > PROJECT_RESOURCE_MAX_SIZE_IN_BYTES env) \<longrightarrow>
            fire env EffectRun st = None \<and> fire env RetryClick st = None
          \<and> uploadEffect env run st = None \<and> \<not> isUploading st)
       \<and> (\<forall>call \<in> set (uploadCalls st).
            \<forall>f \<in> set (snd call). file_size f \<le> PROJECT_RESOURCE_MAX_SIZE_IN_BYTES env)"
proof -
  have safe: "upload_safe env st"
    using run_events_safe[OF assms upload_safe_initial] .
  have flagged: "\<forall>f \<in> set (selectedFiles st).
            file_size f > PROJECT_RESOURCE_MAX_SIZE_IN_BYTES env \<longrightarrow>
            \<lparr>filename = file_name f, file_error = ''too-large''\<rparr> \<in> set (invalidFiles env st)"
    by (auto simp: invalidFiles_eq)
  have blocked: "fire env EffectRun st = None \<and> fire env RetryClick st = None
          \<and> uploadEffect env run st = None \<and> \<not> isUploading st"
    if "\<exists>f \<in> set (selectedFiles st). file_size f > PROJECT_RESOURCE_MAX_SIZE_IN_BYTES env"
  proof -
    from that have ne: "invalidFiles env st \<noteq> []"
      by (auto simp: invalidFiles_empty_iff not_le)
    with safe have "\<not> isUploading st" and "error st = None"
      by (auto simp: upload_safe_def)
    with ne show ?thesis by (simp add: uploadEffect_def canUploadFiles_def)
  qed
  from safe flagged blocked show ?thesis by (simp add: upload_safe_def)
qed

theorem oversized_files_flagged_and_never_uploaded_witness:
  "run_events example_env example_events initialState = Some example_final
   \<and> invalidFiles example_env example_final
       = [\<lparr>filename = ''big.png'', file_error = ''too-large''\<rparr>]
   \<and> fire example_env EffectRun example_final = None
   \<and> fire example_env RetryClick example_final = None
   \<and> uploadCalls example_final = [(''project-1'', [valid_file])]"
proof -
  have r: "run_events example_env example_events initialState = Some example_final"
    by (simp add: example_env_def valid_file_def big_file_def example_events_def
        example_final_def initialState_def onUpload_sync_def js_percentage_1_2
        render_defs upload_defs)
  from oversized_files_flagged_and_never_uploaded[OF r, of rejected_run] r
  show ?thesis
    by (simp add: example_env_def valid_file_def big_file_def example_final_def render_defs)
qed

text \<open>
  The claim C3 as written covers the empty batch, in which every result (there is none)
  carries a URL and none carries an error; there \<^verbatim>\<open>okResults.length\<close> is 0 and the
  callback is not invoked, where the claim has it invoked once with an empty list.
\<close>

theorem successful_batch_counterexample:
  "chooseCalls (onUpload example_env (resolved_run []) (onChange [valid_file] initialState)) = []
   \<and> chooseCalls (onUpload example_env (resolved_run []) (onChange [valid_file] initialState))
       \<noteq> chooseCalls (onChange [valid_file] initialState) @ [[]]"
  by (simp add: example_env_def valid_file_def resolved_run_def initialState_def
      render_defs upload_defs)

text \<open>
  Claim C3, amended. For every non-empty batch of N results in which every result
  carries a truthy URL and none carries an error, an invocation of \<^verbatim>\<open>onUpload\<close> that
  reaches the upload service invokes \<^verbatim>\<open>onChooseResources\<close> exactly once, with a list of
  exactly N resources; the i-th is the resource returned by \<^verbatim>\<open>createNewResource\<close> with its
  file set to the i-th URL, its name to the name of the i-th result's file and its origin
  to \<^verbatim>\<open>'cloud-project-resource'\<close> with that URL.
\<close>

theorem successful_batch_creates_resources:
  assumes "inputCurrent env" and "truthy (cloudProjectId env)"
    and "outcome run = Inr results" and "results \<noteq> []"
    and "\<forall>r \<in> set results. result_error r = None \<and> truthy (result_url r)"
  shows "chooseCalls (onUpload env run st) = chooseCalls st @ [map (newResource env) results]
       \<and> length (map (newResource env) results) = length results
       \<and> (\<forall>i < length results.
             map (newResource env) results ! i =
               (createNewResource env)\<lparr>res_file := the (result_url (results ! i)),
                 res_name := file_name (resourceFile (results ! i)),
                 res_origin := (''cloud-project-resource'', the (result_url (results ! i)))\<rparr>)"
proof -
  have no_err: "erroredResults results = []"
    using assms(5) by (simp add: erroredResults_def filter_empty_conv)
  have all_ok: "okResults results = results"
    using assms(5) by (simp add: okResults_def)
  have calls: "chooseCalls (onUpload env run st) = chooseCalls st @ [map (newResource env) results]"
    using assms(3,4) no_err all_ok by (simp add: onUpload_chooseCalls[OF assms(1,2)])
  have "\<forall>i < length results. map (newResource env) results ! i =
                (createNewResource env)\<lparr>res_file := the (result_url (results ! i)),
                  res_name := file_name (resourceFile (results ! i)),
                  res_origin := (''cloud-project-resource'', the (result_url (results ! i)))\<rparr>"
    using assms(5) by (simp add: newResource_fields)
  with calls show ?thesis by simp
qed

theorem successful_batch_creates_resources_witness:
  "chooseCalls (onUpload example_env (resolved_run [ok_result]) (onChange [valid_file] initialState))
     = [[\<lparr>res_file = ''https://x/y.png'', res_name = ''valid.png'',
          res_origin = (''cloud-project-resource'', ''https://x/y.png'')\<rparr>]]"
proof -
  have i: "inputCurrent example_env" and p: "truthy (cloudProjectId example_env)"
    by (simp_all add: example_env_def upload_defs)
  have o: "outcome (resolved_run [ok_result]) = Inr [ok_result]"
    by (simp add: resolved_run_def)
  have n: "[ok_result] \<noteq> []" by simp
  have a: "\<forall>r \<in> set [ok_result]. result_error r = None \<and> truthy (result_url r)"
    by (simp add: ok_result_def truthy_def)
  from successful_batch_creates_resources[OF i p o n a, of "onChange [valid_file] initialState"]
  show ?thesis
    by (simp add: example_env_def valid_file_def ok_result_def resolved_run_def initialState_def
        render_defs upload_defs)
qed

text \<open>
  Claim C4. For every batch in which at least one result carries an error, an invocation
  of \<^verbatim>\<open>onUpload\<close> that reaches the upload service stores as the error the first errored
  result in batch order (the element \<^verbatim>\<open>erroredResults[0]\<close>, which carries the first error;
  later errored results are discarded) and does not invoke \<^verbatim>\<open>onChooseResources\<close>.
\<close>

theorem errored_batch_stores_first_error:
  assumes "inputCurrent env" and "truthy (cloudProjectId env)"
    and "outcome run = Inr results"
    and "\<exists>r \<in> set results. result_error r \<noteq> None"
  shows "(\<exists>before r after.
            results = before @ r # after
          \<and> (\<forall>x \<in> set before. result_error x = None)
          \<and> result_error r \<noteq> None
          \<and> error (onUpload env run st) = Some (ThrownResult r))
       \<and> chooseCalls (onUpload env run st) = chooseCalls st"
proof -
  from split_list_first_prop[OF assms(4)]
  obtain before r after where d: "results = before @ r # after"
    and r: "result_error r \<noteq> None" and b: "\<forall>x \<in> set before. \<not> result_error x \<noteq> None"
    by blast
  from b have "filter (\<lambda>r. result_error r \<noteq> None) before = []"
    by (simp add: filter_empty_conv)
  with d r have hd: "erroredResults results = r # erroredResults after"
    by (simp add: erroredResults_def)
  have "error (onUpload env run st) = Some (ThrownResult r)"
    using assms(3) hd
    by (simp add: onUpload_error[OF assms(1,2)] onUpload_try_def onUpload_results_def)
  moreover have "chooseCalls (onUpload env run st) = chooseCalls st"
    using assms(3) hd by (simp add: onUpload_chooseCalls[OF assms(1,2)])
  ultimately show ?thesis using d r b by blast
qed

theorem errored_batch_stores_first_error_witness:
  "error (onUpload example_env (resolved_run [ok_result, failed_result, other_failed_result])
            (onChange [valid_file] initialState))
     = Some (ThrownResult failed_result)
   \<and> chooseCalls (onUpload example_env (resolved_run [ok_result, failed_result, other_failed_result])
            (onChange [valid_file] initialState)) = []"
proof -
  have i: "inputCurrent example_env" and p: "truthy (cloudProjectId example_env)"
    by (simp_all add: example_env_def upload_defs)
  have o: "outcome (resolved_run [ok_result, failed_result, other_failed_result])
             = Inr [ok_result, failed_result, other_failed_result]"
    by (simp add: resolved_run_def)
  have a: "\<exists>r \<in> set [ok_result, failed_result, other_failed_result]. result_error r \<noteq> None"
    by (simp add: failed_result_def)
  from errored_batch_stores_first_error[OF i p o a, of "onChange [valid_file] initialState"]
  show ?thesis
    by (simp add: example_env_def valid_file_def big_file_def exact_file_def ok_result_def
        failed_result_def other_failed_result_def resolved_run_def initialState_def
        render_defs upload_defs)
qed

text \<open>
  Claim C5. For every invocation of \<^verbatim>\<open>onUpload\<close> with the input element present and a
  cloud project id present, whatever the upload service does (it rejects, or it resolves
  with any batch), the uploading flag is false when the invocation completes, and the
  stored error is exactly the value thrown in the \<^verbatim>\<open>try\<close> block, if one is thrown: the
  rejection of the service, the first errored result, or what \<^verbatim>\<open>onChooseResources\<close> throws.
\<close>

theorem uploading_flag_cleared_and_failure_stored:
  assumes "inputCurrent env" and "truthy (cloudProjectId env)"
  shows "isUploading (onUpload env run st) = False
       \<and> error (onUpload env run st) = fst (onUpload_try env (outcome run) st)
       \<and> (\<forall>e. outcome run = Inl e \<longrightarrow> error (onUpload env run st) = Some (ThrownError e))
       \<and> (\<forall>results e.
             outcome run = Inr results \<and> erroredResults results = [] \<and> okResults results \<noteq> [] \<and>
             onChooseResources env (map (newResource env) (okResults results)) = Some e \<longrightarrow>
             error (onUpload env run st) = Some (ThrownError e))
       \<and> (\<forall>results.
             outcome run = Inr results \<and> erroredResults results = [] \<and>
             (okResults results \<noteq> [] \<longrightarrow>
                onChooseResources env (map (newResource env) (okResults results)) = None) \<longrightarrow>
             error (onUpload env run st) = None)"
  by (simp add: onUpload_isUploading[OF assms] onUpload_error[OF assms] onUpload_try_def
      onUpload_results_def Let_def)

theorem uploading_flag_cleared_and_failure_stored_witness:
  "isUploading (onUpload example_env rejected_run (onChange [valid_file] initialState)) = False
   \<and> error (onUpload example_env rejected_run (onChange [valid_file] initialState))
       = Some (ThrownError (JsError ''network''))"
proof -
  have i: "inputCurrent example_env" and p: "truthy (cloudProjectId example_env)"
    by (simp_all add: example_env_def upload_defs)
  from uploading_flag_cleared_and_failure_stored[OF i p, of rejected_run
      "onChange [valid_file] initialState"]
  show ?thesis
    by (simp add: example_env_def valid_file_def rejected_run_def initialState_def
        render_defs upload_defs)
qed

text \<open>
  The claim C6 as written has the stored percentage equal to \<open>100 * current / total\<close>.
  The code computes \<^verbatim>\<open>(current / total) * 100\<close> in double arithmetic, where each of the
  two operations rounds: for \<open>current = 7\<close> and \<open>total = 25\<close> the quotient is rounded up and
  the product is \<open>28 + 2\<^sup>-\<^sup>4\<^sup>8\<close> (printed \<^verbatim>\<open>28.000000000000004\<close>), not 28.
\<close>

theorem progress_percentage_counterexample:
  "(0::rat) \<le> 7 \<and> (7::rat) \<le> 25 \<and> (0::rat) < 25
   \<and> uploadProgress (onProgress 7 25 initialState)
       = Num (7881299347898369 / 281474976710656)
   \<and> uploadProgress (onProgress 7 25 initialState) \<noteq> Num (100 * 7 / 25)"
  by (simp add: onProgress_def js_percentage_7_25)

text \<open>
  Claim C6, amended. For every invocation of the progress callback with
  \<open>0 \<le> current \<le> total\<close> and \<open>0 < total\<close>, the stored percentage is the result of
  \<^verbatim>\<open>(current / total) * 100\<close> in double arithmetic: a finite number between 0 and 100
  that differs from \<open>100 * current / total\<close> by at most \<open>2\<^sup>-\<^sup>4\<^sup>5\<close>; it is exactly 0 when
  \<open>current = 0\<close> and exactly 100 when \<open>current = total\<close>.
\<close>

theorem progress_percentage_rounded:
  assumes "0 \<le> current_n" and "current_n \<le> total_n" and "0 < total_n"
  shows "(\<exists>p. uploadProgress (onProgress current_n total_n st) = Num p
              \<and> 0 \<le> p \<and> p \<le> 100
              \<and> \<bar>p - 100 * current_n / total_n\<bar> \<le> 1 / 2 ^ 45)
       \<and> (current_n = 0 \<longrightarrow> uploadProgress (onProgress current_n total_n st) = Num 0)
       \<and> (current_n = total_n \<longrightarrow> uploadProgress (onProgress current_n total_n st) = Num 100)"
proof -
  have zero: "uploadProgress (onProgress current_n total_n st) = Num 0" if "current_n = 0"
    using that assms(3) by (simp add: onProgress_def js_div_def to_double_def)
  have full: "uploadProgress (onProgress current_n total_n st) = Num 100" if "current_n = total_n"
    using that assms(3) by (simp add: onProgress_def js_div_def to_double_def nearest_1 nearest_100)
  from js_percentage[OF assms] zero full show ?thesis
    by (simp add: onProgress_def)
qed

theorem progress_percentage_rounded_witness:
  "uploadProgress (onProgress 5 5 initialState) = Num 100
   \<and> uploadProgress (onProgress 0 5 initialState) = Num 0"
  using progress_percentage_rounded[of 5 5 initialState]
    progress_percentage_rounded[of 0 5 initialState]
  by simp

text \<open>
  Claim C7. For every change event of the file input, whatever the stored error, the
  handler sets the selected files to the newly chosen ones and the error to null, and
  leaves the uploading flag, the progress and the call logs as they are; so when the
  input is enabled and the new selection is non-empty with no oversized file, the
  effect invokes \<^verbatim>\<open>onUpload\<close> again.
\<close>

theorem onChange_frame:
  "selectedFiles (onChange fileList st) = fileList
   \<and> error (onChange fileList st) = None
   \<and> isUploading (onChange fileList st) = isUploading st
   \<and> uploadProgress (onChange fileList st) = uploadProgress st
   \<and> uploadCalls (onChange fileList st) = uploadCalls st
   \<and> chooseCalls (onChange fileList st) = chooseCalls st
   \<and> (canChooseFiles env st \<and> fileList \<noteq> [] \<and>
      (\<forall>f \<in> set fileList. file_size f \<le> PROJECT_RESOURCE_MAX_SIZE_IN_BYTES env)
      \<longrightarrow> uploadEffect env run (onChange fileList st)
            = Some (onUpload env run (onChange fileList st)))"
  by (auto simp: onChange_def pushFiles_all uploadEffect_def canUploadFiles_def
      canChooseFiles_def hasSelectedFiles_def invalidFiles_empty_iff)

theorem onChange_frame_witness:
  "selectedFiles (onChange [exact_file] failed_state) = [exact_file]
   \<and> error (onChange [exact_file] failed_state) = None
   \<and> uploadProgress (onChange [exact_file] failed_state) = Num 50
   \<and> uploadEffect example_env rejected_run failed_state = None
   \<and> uploadEffect example_env rejected_run (onChange [exact_file] failed_state)
       = Some (onUpload example_env rejected_run (onChange [exact_file] failed_state))"
  using onChange_frame[of "[exact_file]" failed_state example_env rejected_run]
  by (simp add: example_env_def valid_file_def exact_file_def failed_state_def
      uploadEffect_def render_defs)

text \<open>
  Claim C8. Every entry of the list of invalid files has the reason \<^verbatim>\<open>'too-large'\<close>, so
  for every selection the alerts rendered for it are all of the too-large kind: the
  generic invalid-file alert is never rendered.
\<close>

theorem invalid_entries_all_too_large:
  "(\<forall>entry \<in> set (invalidFiles env st). file_error entry = ''too-large'')
   \<and> (\<forall>a \<in> set (renderInvalidFiles (invalidFiles env st)). \<forall>n. a \<noteq> InvalidFileAlert n)
   \<and> renderInvalidFiles (invalidFiles env st) =
       map (\<lambda>entry. TooLargeAlert (filename entry)) (invalidFiles env st)"
  by (auto simp: invalidFiles_eq renderInvalidFiles_def)

theorem invalid_entries_all_too_large_witness:
  "map file_error (invalidFiles example_env (onChange [big_file, valid_file] initialState))
     = [''too-large'']
   \<and> renderInvalidFiles (invalidFiles example_env (onChange [big_file, valid_file] initialState))
       = [TooLargeAlert ''big.png'']"
  using invalid_entries_all_too_large[of example_env "onChange [big_file, valid_file] initialState"]
  by (simp add: example_env_def valid_file_def big_file_def initialState_def
      renderInvalidFiles_def render_defs)

text \<open>
  Claim C9. A selected file whose size is exactly
  \<^verbatim>\<open>PROJECT_RESOURCE_MAX_SIZE_IN_BYTES\<close> contributes no entry to the list of invalid files
  (the comparison is strict); so when the other selected files are not oversized and the
  other conditions of the effect hold, the effect invokes \<^verbatim>\<open>onUpload\<close>, and the call
  made to the upload service includes the file.
\<close>

theorem file_of_exactly_max_size_is_uploaded:
  assumes "file_size f = PROJECT_RESOURCE_MAX_SIZE_IN_BYTES env"
  shows "invalidFiles env (st\<lparr>selectedFiles := [f]\<rparr>) = []
       \<and> invalidFiles env (st\<lparr>selectedFiles := before @ f # after\<rparr>)
           = invalidFiles env (st\<lparr>selectedFiles := before @ after\<rparr>)
       \<and> (canChooseFiles env st \<and> error st = None \<and> selectedFiles st = before @ f # after \<and>
          (\<forall>g \<in> set (before @ after). file_size g \<le> PROJECT_RESOURCE_MAX_SIZE_IN_BYTES env) \<longrightarrow>
            uploadEffect env run st = Some (onUpload env run st)
          \<and> (inputCurrent env \<and> truthy (cloudProjectId env) \<longrightarrow>
               uploadCalls (onUpload env run st)
                 = uploadCalls st @ [(the (cloudProjectId env), before @ f # after)]))"
proof -
  have one: "invalidFiles env (st\<lparr>selectedFiles := [f]\<rparr>) = []"
    using assms by (simp add: invalidFiles_eq)
  have same: "invalidFiles env (st\<lparr>selectedFiles := before @ f # after\<rparr>)
           = invalidFiles env (st\<lparr>selectedFiles := before @ after\<rparr>)"
    using assms by (simp add: invalidFiles_eq)
  have fires: "uploadEffect env run st = Some (onUpload env run st)
          \<and> (inputCurrent env \<and> truthy (cloudProjectId env) \<longrightarrow>
               uploadCalls (onUpload env run st)
                 = uploadCalls st @ [(the (cloudProjectId env), before @ f # after)])"
    if c: "canChooseFiles env st" and e: "error st = None"
      and s: "selectedFiles st = before @ f # after"
      and o: "\<forall>g \<in> set (before @ after). file_size g \<le> PROJECT_RESOURCE_MAX_SIZE_IN_BYTES env"
  proof -
    have "invalidFiles env st = []"
      using assms s o by (auto simp: invalidFiles_empty_iff)
    then have "uploadEffect env run st = Some (onUpload env run st)"
      using c e s by (simp add: uploadEffect_def canUploadFiles_def canChooseFiles_def
          hasSelectedFiles_def)
    then show ?thesis using s by (simp add: onUpload_uploadCalls)
  qed
  from one same fires show ?thesis by blast
qed

theorem file_of_exactly_max_size_is_uploaded_witness:
  "invalidFiles example_env (onChange [valid_file, exact_file] initialState) = []
   \<and> uploadEffect example_env rejected_run (onChange [valid_file, exact_file] initialState)
       = Some (onUpload example_env rejected_run (onChange [valid_file, exact_file] initialState))
   \<and> uploadCalls (onUpload example_env rejected_run (onChange [valid_file, exact_file] initialState))
       = [(''project-1'', [valid_file, exact_file])]"
proof -
  have m: "file_size exact_file = PROJECT_RESOURCE_MAX_SIZE_IN_BYTES example_env"
    by (simp add: example_env_def exact_file_def)
  from file_of_exactly_max_size_is_uploaded[OF m,
      of "onChange [valid_file, exact_file] initialState" "[valid_file]" "[]" rejected_run]
  show ?thesis
    by (simp add: example_env_def valid_file_def exact_file_def rejected_run_def
        initialState_def uploadEffect_def render_defs upload_defs)
qed

text \<open>
  Claim C10. A result with neither an error nor a truthy URL is in neither partition
  and has no influence on what the \<^verbatim>\<open>try\<close> block does; and when every result of the batch
  is of this kind (the empty batch included), an invocation of \<^verbatim>\<open>onUpload\<close> that reaches
  the upload service completes with no error stored, without invoking
  \<^verbatim>\<open>onChooseResources\<close>, and with the uploading flag false.
\<close>

theorem results_without_error_or_url_dropped:
  "(result_error r = None \<and> \<not> truthy (result_url r) \<longrightarrow>
      erroredResults (before @ r # after) = erroredResults (before @ after)
    \<and> okResults (before @ r # after) = okResults (before @ after)
    \<and> onUpload_try env (Inr (before @ r # after)) st = onUpload_try env (Inr (before @ after)) st)
   \<and> (inputCurrent env \<and> truthy (cloudProjectId env) \<and> outcome run = Inr results \<and>
      (\<forall>x \<in> set results. result_error x = None \<and> \<not> truthy (result_url x)) \<longrightarrow>
        error (onUpload env run st) = None
      \<and> chooseCalls (onUpload env run st) = chooseCalls st
      \<and> isUploading (onUpload env run st) = False)"
proof -
  have a: "erroredResults (before @ r # after) = erroredResults (before @ after)
    \<and> okResults (before @ r # after) = okResults (before @ after)
    \<and> onUpload_try env (Inr (before @ r # after)) st = onUpload_try env (Inr (before @ after)) st"
    if "result_error r = None" and "\<not> truthy (result_url r)"
    using that by (simp add: erroredResults_def okResults_def onUpload_try_def onUpload_results_def)
  have b: "error (onUpload env run st) = None
      \<and> chooseCalls (onUpload env run st) = chooseCalls st
      \<and> isUploading (onUpload env run st) = False"
    if p: "inputCurrent env" "truthy (cloudProjectId env)" and o: "outcome run = Inr results"
      and n: "\<forall>x \<in> set results. result_error x = None \<and> \<not> truthy (result_url x)"
  proof -
    have e: "erroredResults results = []" and k: "okResults results = []"
      using n by (simp_all add: erroredResults_def okResults_def filter_empty_conv)
    show ?thesis using o e k
      by (simp add: onUpload_error[OF p] onUpload_chooseCalls[OF p] onUpload_isUploading[OF p]
          onUpload_try_def onUpload_results_def)
  qed
  from a b show ?thesis by blast
qed

theorem results_without_error_or_url_dropped_witness:
  "okResults [ok_result, empty_result] = [ok_result]
   \<and> erroredResults [ok_result, empty_result] = []
   \<and> error (onUpload example_env (resolved_run [empty_result]) (onChange [valid_file] initialState))
       = None
   \<and> chooseCalls (onUpload example_env (resolved_run [empty_result])
        (onChange [valid_file] initialState)) = []"
  using results_without_error_or_url_dropped[of empty_result "[ok_result]" "[]" example_env
      "onChange [valid_file] initialState" "resolved_run [empty_result]" "[empty_result]"]
  by (simp add: example_env_def valid_file_def exact_file_def ok_result_def empty_result_def
      resolved_run_def initialState_def render_defs upload_defs)

end
